theory Spec2Isabelle
  imports Main "HOL-Library.Sublist"
begin

section \<open>doughdetective: reconciling a card statement with a Firefly III ledger\<close>

text \<open>
  The development embeds \<^verbatim>\<open>src/doughdetective/main.py\<close>. Python strings are modelled
  as \<^typ>\<open>string\<close> holding the UTF-8 encoding of the text; equality and substring
  containment of texts coincide with equality and containment of their UTF-8 encodings.
  Every exception the source can raise is a value of \<open>error\<close>, and a function that can
  raise returns \<open>error + 'a\<close> with \<open>Inl\<close> for the exception.
\<close>

subsection \<open>Exceptions\<close>

text \<open>
  The source defines no exception classes of its own. The names are those of the Python
  exceptions that reach the caller: \<open>HTTPError\<close> is raised by
  \<^verbatim>\<open>response.raise_for_status()\<close>, \<open>JSONDecodeError\<close> by \<^verbatim>\<open>response.json()\<close>,
  \<open>KeyError\<close> by a dictionary lookup of an absent key, \<open>IndexError\<close> by a list index out
  of range, \<open>ValueError\<close> by \<^verbatim>\<open>int\<close> and \<^verbatim>\<open>datetime.strptime\<close>, and \<open>StopIteration\<close>
  by \<^verbatim>\<open>next\<close> on an exhausted reader.
\<close>

datatype error =
    HTTPError nat
  | JSONDecodeError
  | KeyError string
  | IndexError
  | ValueError
  | StopIteration

subsection \<open>Canonical transactions\<close>

text \<open>
  Both producers build dictionaries with the keys \<^verbatim>\<open>date\<close>, \<^verbatim>\<open>name\<close> and \<^verbatim>\<open>amount\<close>,
  all three holding strings.
\<close>

record txn =
  date :: string
  name :: string
  amount :: string

subsection \<open>The Reconciler: \<^verbatim>\<open>compare_transactions\<close>\<close>

text \<open>
  The inner loop of the first pass: scan the ledger transactions for one with the date
  and the amount of the statement transaction, stopping at the first.
\<close>

fun matching_txn_found_ff :: "txn \<Rightarrow> txn list \<Rightarrow> bool" where
  "matching_txn_found_ff csv_txn [] = False"
| "matching_txn_found_ff csv_txn (ff_txn # firefly_transactions) =
     (if date csv_txn = date ff_txn \<and> amount csv_txn = amount ff_txn then True
      else matching_txn_found_ff csv_txn firefly_transactions)"

text \<open>The inner loop of the second pass, over the statement transactions.\<close>

fun matching_txn_found_csv :: "txn \<Rightarrow> txn list \<Rightarrow> bool" where
  "matching_txn_found_csv ff_txn [] = False"
| "matching_txn_found_csv ff_txn (csv_txn # csv_transactions) =
     (if date csv_txn = date ff_txn \<and> amount csv_txn = amount ff_txn then True
      else matching_txn_found_csv ff_txn csv_transactions)"

text \<open>
  The two outer iterations. Each returns, in order, the transactions for which a line is printed.
  The ledger list is passed unchanged to every iteration: nothing is removed from it.
\<close>

fun missing_in_ff :: "txn list \<Rightarrow> txn list \<Rightarrow> txn list" where
  "missing_in_ff [] firefly_transactions = []"
| "missing_in_ff (csv_txn # csv_transactions) firefly_transactions =
     (if \<not> matching_txn_found_ff csv_txn firefly_transactions
      then csv_txn # missing_in_ff csv_transactions firefly_transactions
      else missing_in_ff csv_transactions firefly_transactions)"

fun missing_in_csv :: "txn list \<Rightarrow> txn list \<Rightarrow> txn list" where
  "missing_in_csv csv_transactions [] = []"
| "missing_in_csv csv_transactions (ff_txn # firefly_transactions) =
     (if \<not> matching_txn_found_csv ff_txn csv_transactions
      then ff_txn # missing_in_csv csv_transactions firefly_transactions
      else missing_in_csv csv_transactions firefly_transactions)"

text \<open>The line printed for an unmatched transaction.\<close>

definition report_line :: "txn \<Rightarrow> string" where
  "report_line t =
     ''Date: '' @ date t @ '', Amount: '' @ amount t @ '', Description: '' @ name t"

text \<open>The lines \<^verbatim>\<open>compare_transactions\<close> writes to standard output.\<close>

definition compare_transactions :: "txn list \<Rightarrow> txn list \<Rightarrow> string list" where
  "compare_transactions csv_transactions firefly_transactions =
     [''###Transactions missing in FF###'']
     @ map report_line (missing_in_ff csv_transactions firefly_transactions)
     @ [''###Transactions missing in CSV###'']
     @ map report_line (missing_in_csv csv_transactions firefly_transactions)"

subsection \<open>Python primitives used by the two producers\<close>

text \<open>List indexing \<^verbatim>\<open>xs[i]\<close>: a negative index counts from the end, and \<open>None\<close> stands
  for the IndexError of an index out of range.\<close>

definition py_index :: "'a list \<Rightarrow> int \<Rightarrow> 'a option" where
  "py_index xs i =
     (if 0 \<le> i \<and> i < int (length xs) then Some (xs ! nat i)
      else if - int (length xs) \<le> i \<and> i < 0 then Some (xs ! nat (int (length xs) + i))
      else None)"

text \<open>\<^verbatim>\<open>s.split(sep)\<close> for a separator of one character.\<close>

fun py_split :: "char \<Rightarrow> string \<Rightarrow> string list" where
  "py_split sep [] = [[]]"
| "py_split sep (c # cs) =
     (if c = sep then [] # py_split sep cs
      else (case py_split sep cs of [] \<Rightarrow> [[c]] | p # ps \<Rightarrow> (c # p) # ps))"

text \<open>\<^verbatim>\<open>amount.split('.')[0]\<close>, the truncation both branches of the Ledger Client use.\<close>

definition integer_part :: "string \<Rightarrow> error + string" where
  "integer_part s =
     (case py_index (py_split (CHR ''.'') s) 0 of
        None \<Rightarrow> Inl IndexError
      | Some p \<Rightarrow> Inr p)"

text \<open>\<^verbatim>\<open>needle in haystack\<close> on strings.\<close>

fun py_in :: "string \<Rightarrow> string \<Rightarrow> bool" where
  "py_in needle [] = (needle = [])"
| "py_in needle (c # cs) = (prefix needle (c # cs) \<or> py_in needle cs)"

text \<open>
  \<^verbatim>\<open>int(s)\<close> on a string, for ASCII text: surrounding whitespace is stripped, one sign is
  allowed, and the digits may be grouped by single underscores between digits. Anything
  else raises ValueError. (Decimal digits and white space outside ASCII, which \<^verbatim>\<open>int\<close>
  also accepts, and the interpreter's limit of 4300 digits are outside the model: the
  ledger's amounts are short ASCII decimal numbers.)
\<close>

definition is_space :: "char \<Rightarrow> bool" where
  "is_space c \<longleftrightarrow> c \<in> {CHR '' '', CHR 0x09, CHR 0x0A, CHR 0x0B, CHR 0x0C, CHR 0x0D}"

definition py_strip :: "string \<Rightarrow> string" where
  "py_strip s = rev (dropWhile is_space (rev (dropWhile is_space s)))"

definition digit_value :: "char \<Rightarrow> nat option" where
  "digit_value c =
     (if 48 \<le> (of_char c :: nat) \<and> (of_char c :: nat) \<le> 57
      then Some (of_char c - 48) else None)"

text \<open>The digits after the sign; \<open>prev\<close> tells whether the previous character was a digit.\<close>

fun py_digits :: "nat \<Rightarrow> bool \<Rightarrow> string \<Rightarrow> nat option" where
  "py_digits acc prev [] = (if prev then Some acc else None)"
| "py_digits acc prev (c # cs) =
     (case digit_value c of
        Some d \<Rightarrow> py_digits (10 * acc + d) True cs
      | None \<Rightarrow> if c = CHR ''_'' \<and> prev then py_digits acc False cs else None)"

definition py_int :: "string \<Rightarrow> error + int" where
  "py_int s =
     (case py_strip s of
        [] \<Rightarrow> Inl ValueError
      | c # cs \<Rightarrow>
          if c = CHR ''-'' then
            (case py_digits 0 False cs of None \<Rightarrow> Inl ValueError | Some n \<Rightarrow> Inr (- int n))
          else if c = CHR ''+'' then
            (case py_digits 0 False cs of None \<Rightarrow> Inl ValueError | Some n \<Rightarrow> Inr (int n))
          else
            (case py_digits 0 False (c # cs) of None \<Rightarrow> Inl ValueError | Some n \<Rightarrow> Inr (int n)))"

text \<open>\<^verbatim>\<open>str(n)\<close> on an integer.\<close>

definition digit_char :: "nat \<Rightarrow> char" where
  "digit_char d = ''0123456789'' ! d"

fun str_nat :: "nat \<Rightarrow> string" where
  "str_nat n = (if n < 10 then [digit_char n] else str_nat (n div 10) @ [digit_char (n mod 10)])"

declare str_nat.simps [simp del]

definition str_int :: "int \<Rightarrow> string" where
  "str_int i = (if i < 0 then CHR ''-'' # str_nat (nat (- i)) else str_nat (nat i))"

text \<open>
  \<^verbatim>\<open>datetime.strptime(s, fmt).strftime('%Y/%m/%d')\<close> belongs to the standard library. The
  model takes it as a parameter: a function from the date text and the format to the
  canonical date, \<open>None\<close> standing for the ValueError of a text that does not parse.
\<close>

type_synonym strptime_fn = "string \<Rightarrow> string \<Rightarrow> string option"

text \<open>
  One instance, used to run the model on concrete inputs: it reads a date that starts
  with four digits, a separator, two digits, a separator and two digits, whatever the
  format, and prints it with slashes.
\<close>

definition sample_strptime :: strptime_fn where
  "sample_strptime s fmt =
     (if 10 \<le> length s
         \<and> list_all (\<lambda>i. digit_value (s ! i) \<noteq> None) [0, 1, 2, 3, 5, 6, 8, 9]
      then Some (take 4 s @ ''/'' @ take 2 (drop 5 s) @ ''/'' @ take 2 (drop 8 s))
      else None)"

subsection \<open>The Ledger Client: \<^verbatim>\<open>FireflyAPIClient\<close>\<close>

text \<open>
  A response of the ledger: its status code and its JSON body, \<open>None\<close> when the body is
  not JSON. The body is an object whose keys \<^verbatim>\<open>data\<close>, \<^verbatim>\<open>meta\<close>, \<^verbatim>\<open>pagination\<close> and
  \<^verbatim>\<open>total_pages\<close> may each be absent (\<open>None\<close>).
\<close>

record pagination_obj =
  total_pages :: "int option"

record meta_obj =
  pagination :: "pagination_obj option"

record 'a body =
  data :: "'a list option"
  meta :: "meta_obj option"

record 'a response =
  status_code :: nat
  json :: "'a body option"

text \<open>The remote ledger, for one endpoint and one set of parameters: the response to
  the request for each page.\<close>

type_synonym 'a server = "nat \<Rightarrow> 'a response"

text \<open>
  What one iteration of the loop of \<^verbatim>\<open>make_api_call\<close> does with the response:
  \<^verbatim>\<open>raise_for_status\<close> raises for a status from 400 to 599, \<^verbatim>\<open>response.json()\<close> decodes
  the body, and \<^verbatim>\<open>data['data']\<close> and \<^verbatim>\<open>data['meta']['pagination']['total_pages']\<close> are
  looked up.
\<close>

definition read_page :: "'a response \<Rightarrow> error + ('a list \<times> int)" where
  "read_page response =
     (if 400 \<le> status_code response \<and> status_code response < 600
      then Inl (HTTPError (status_code response))
      else case json response of
        None \<Rightarrow> Inl JSONDecodeError
      | Some d \<Rightarrow>
          (case data d of
             None \<Rightarrow> Inl (KeyError ''data'')
           | Some items \<Rightarrow>
               (case meta d of
                  None \<Rightarrow> Inl (KeyError ''meta'')
                | Some m \<Rightarrow>
                    (case pagination m of
                       None \<Rightarrow> Inl (KeyError ''pagination'')
                     | Some pg \<Rightarrow>
                         (case total_pages pg of
                            None \<Rightarrow> Inl (KeyError ''total_pages'')
                          | Some tp \<Rightarrow> Inr (items, tp))))))"

text \<open>
  The loop of \<^verbatim>\<open>make_api_call\<close>. Besides \<^verbatim>\<open>all_data\<close> it carries the list of the pages
  requested so far, and returns it with the outcome. The loop need not end (a ledger may
  report ever more pages), so not returning is the value \<open>None\<close>.
\<close>

partial_function (option) make_api_call_loop ::
  "'a server \<Rightarrow> nat \<Rightarrow> 'a list \<Rightarrow> nat list \<Rightarrow> (nat list \<times> (error + 'a list)) option" where
  "make_api_call_loop server page all_data requested =
     (case read_page (server page) of
        Inl e \<Rightarrow> Some (requested @ [page], Inl e)
      | Inr (items, tp) \<Rightarrow>
          if int (page + 1) > tp then Some (requested @ [page], Inr (all_data @ items))
          else make_api_call_loop server (page + 1) (all_data @ items) (requested @ [page]))"

definition make_api_call :: "'a server \<Rightarrow> (nat list \<times> (error + 'a list)) option" where
  "make_api_call server = make_api_call_loop server 1 [] []"

text \<open>The items of page \<open>q\<close>, empty when the page cannot be read. Used to state what
  \<^verbatim>\<open>make_api_call\<close> returns.\<close>

definition page_items :: "'a server \<Rightarrow> nat \<Rightarrow> 'a list" where
  "page_items server q = (case read_page (server q) of Inr (items, tp) \<Rightarrow> items | Inl e \<Rightarrow> [])"

text \<open>An account of the ledger: \<^verbatim>\<open>account['id']\<close> and \<^verbatim>\<open>account['attributes']['name']\<close>.\<close>

record account =
  acc_id :: string
  acc_name :: string

text \<open>The loop of \<^verbatim>\<open>get_account_id\<close>; \<open>None\<close> is Python's \<^verbatim>\<open>None\<close>.\<close>

fun find_account_id :: "account list \<Rightarrow> string \<Rightarrow> string option" where
  "find_account_id [] account_name = None"
| "find_account_id (account # accounts) account_name =
     (if acc_name account = account_name then Some (acc_id account)
      else find_account_id accounts account_name)"

definition get_account_id :: "account server \<Rightarrow> string \<Rightarrow> (error + string option) option" where
  "get_account_id server account_name =
     (case make_api_call server of
        None \<Rightarrow> None
      | Some (requested, Inl e) \<Rightarrow> Some (Inl e)
      | Some (requested, Inr accounts) \<Rightarrow> Some (Inr (find_account_id accounts account_name)))"

text \<open>
  A leg of a transaction group and the group itself, with the fields the client reads;
  \<^verbatim>\<open>group_title\<close> is a string or null.
\<close>

record leg =
  source_id :: string
  leg_amount :: string
  leg_date :: string
  description :: string

record group =
  group_title :: "string option"
  transactions :: "leg list"



text \<open>\<^verbatim>\<open>int(amount.split('.')[0])\<close>, the value a leg adds to a split transaction.\<close>

definition truncated_int :: "string \<Rightarrow> error + int" where
  "truncated_int s = (case integer_part s of Inl e \<Rightarrow> Inl e | Inr p \<Rightarrow> py_int p)"

text \<open>The loop that adds up the legs of a split transaction.\<close>

fun total_cost_loop :: "int \<Rightarrow> leg list \<Rightarrow> error + int" where
  "total_cost_loop total_cost [] = Inr total_cost"
| "total_cost_loop total_cost (sub_trans # rest) =
     (case truncated_int (leg_amount sub_trans) of
        Inl e \<Rightarrow> Inl e
      | Inr v \<Rightarrow> total_cost_loop (total_cost + v) rest)"

text \<open>The name and the amount chosen by the two branches of the loop body of
  \<^verbatim>\<open>get_transaction_list\<close>.\<close>

definition name_and_amount :: "group \<Rightarrow> error + (string \<times> string)" where
  "name_and_amount transaction =
     (case group_title transaction of
        Some (c # cs) \<Rightarrow>
          (case total_cost_loop 0 (transactions transaction) of
             Inl e \<Rightarrow> Inl e
           | Inr total_cost \<Rightarrow> Inr (c # cs, str_int total_cost))
      | _ \<Rightarrow>
          (case py_index (transactions transaction) 0 of
             None \<Rightarrow> Inl IndexError
           | Some l \<Rightarrow>
               (case integer_part (leg_amount l) of
                  Inl e \<Rightarrow> Inl e
                | Inr p \<Rightarrow> Inr (description l, p))))"

text \<open>The whole loop body: the canonical transaction of one group.\<close>

definition format_transaction :: "strptime_fn \<Rightarrow> group \<Rightarrow> error + txn" where
  "format_transaction strptime transaction =
     (case name_and_amount transaction of
        Inl e \<Rightarrow> Inl e
      | Inr (trans_name, trans_amount) \<Rightarrow>
          (case py_index (transactions transaction) 0 of
             None \<Rightarrow> Inl IndexError
           | Some l \<Rightarrow>
               (case strptime (leg_date l) ''%Y-%m-%dT%H:%M:%S+00:00'' of
                  None \<Rightarrow> Inl ValueError
                | Some formatted_date \<Rightarrow>
                    Inr \<lparr>date = formatted_date, name = trans_name, amount = trans_amount\<rparr>)))"



subsection \<open>The CSV Normalizer: \<^verbatim>\<open>read_csv\<close>\<close>

text \<open>
  The format configuration comes from a JSON file, so a flag may hold any JSON scalar;
  the source compares it with the string \<^verbatim>\<open>"True"\<close>. The columns are integers and the
  date format is a string.
\<close>

datatype pyval = PNone | PBool bool | PInt int | PStr string

record config =
  has_header :: pyval
  has_ribo :: pyval
  date_column :: int
  description_column :: int
  amount_column :: int
  date_format :: string

text \<open>The two markers of the source, in UTF-8: the one of a converted foreign-currency
  amount (five characters) and the one of a revolving-credit charge (two characters).\<close>

definition conversion_marker :: string where
  "conversion_marker =
     [CHR 0xE7, CHR 0x8F, CHR 0xBE, CHR 0xE5, CHR 0x9C, CHR 0xB0, CHR 0xE5, CHR 0x88,
      CHR 0xA9, CHR 0xE7, CHR 0x94, CHR 0xA8, CHR 0xE9, CHR 0xA1, CHR 0x8D]"

definition ribo_marker :: string where
  "ribo_marker = [CHR 0xE3, CHR 0x83, CHR 0xAA, CHR 0xE3, CHR 0x83, CHR 0x9C]"

text \<open>
  The exclusion test at the head of the loop body, for a row as \<^verbatim>\<open>csv.reader\<close> yields
  it: \<open>Inr True\<close> when the row is skipped by \<^verbatim>\<open>continue\<close>. The columns 1 and 3 are fixed
  in the source, and \<^verbatim>\<open>row[3]\<close> is read only when \<^verbatim>\<open>row[1]\<close> holds neither marker.
\<close>

definition ribo_excluded :: "config \<Rightarrow> string list \<Rightarrow> error + bool" where
  "ribo_excluded cfg row =
     (if has_ribo cfg = PStr ''True'' then
        (case py_index row 1 of
           None \<Rightarrow> Inl IndexError
         | Some r1 \<Rightarrow>
             if py_in conversion_marker r1 then Inr True
             else if py_in ribo_marker r1 then Inr True
             else (case py_index row 3 of
                     None \<Rightarrow> Inl IndexError
                   | Some r3 \<Rightarrow> Inr (py_in ribo_marker r3)))
      else Inr False)"

text \<open>The rest of the loop body: the canonical transaction of a row that is kept.\<close>

definition row_transaction :: "strptime_fn \<Rightarrow> config \<Rightarrow> string list \<Rightarrow> error + txn" where
  "row_transaction strptime cfg row =
     (case py_index row (date_column cfg) of
        None \<Rightarrow> Inl IndexError
      | Some d \<Rightarrow>
          (case strptime d (date_format cfg) of
             None \<Rightarrow> Inl ValueError
           | Some formatted_date \<Rightarrow>
               (case py_index row (description_column cfg) of
                  None \<Rightarrow> Inl IndexError
                | Some n \<Rightarrow>
                    (case py_index row (amount_column cfg) of
                       None \<Rightarrow> Inl IndexError
                     | Some a \<Rightarrow>
                         Inr \<lparr>date = formatted_date, name = n, amount = a\<rparr>))))"

text \<open>The loop over the rows; \<open>collected\<close> is the list \<^verbatim>\<open>transactions\<close> built so far.\<close>

fun read_rows :: "strptime_fn \<Rightarrow> config \<Rightarrow> string list list \<Rightarrow> txn list \<Rightarrow> error + txn list" where
  "read_rows strptime cfg [] collected = Inr collected"
| "read_rows strptime cfg (row # rows) collected =
     (case ribo_excluded cfg row of
        Inl e \<Rightarrow> Inl e
      | Inr True \<Rightarrow> read_rows strptime cfg rows collected
      | Inr False \<Rightarrow>
          (case row_transaction strptime cfg row of
             Inl e \<Rightarrow> Inl e
           | Inr t \<Rightarrow> read_rows strptime cfg rows (collected @ [t])))"

text \<open>\<^verbatim>\<open>read_csv\<close> on the rows of the file; \<^verbatim>\<open>next(reader)\<close> raises StopIteration when
  there is no row to skip.\<close>

definition read_csv :: "strptime_fn \<Rightarrow> config \<Rightarrow> string list list \<Rightarrow> error + txn list" where
  "read_csv strptime cfg csv_rows =
     (if has_header cfg = PStr ''True'' then
        (case csv_rows of
           [] \<Rightarrow> Inl StopIteration
         | header # rows \<Rightarrow> read_rows strptime cfg rows [])
      else read_rows strptime cfg csv_rows [])"

text \<open>The rows the loop of \<^verbatim>\<open>read_csv\<close> runs over: all but the first when the header
  is skipped. Used to state what \<^verbatim>\<open>read_csv\<close> returns.\<close>

definition body_rows :: "config \<Rightarrow> string list list \<Rightarrow> string list list" where
  "body_rows cfg csv_rows = (if has_header cfg = PStr ''True'' then drop 1 csv_rows else csv_rows)"

text \<open>A row parses when the loop body runs through on it: it is skipped, or it is kept and
  all three configured columns exist and the date parses.\<close>

definition row_parses :: "strptime_fn \<Rightarrow> config \<Rightarrow> string list \<Rightarrow> bool" where
  "row_parses strptime cfg r \<longleftrightarrow>
     ribo_excluded cfg r = Inr True
     \<or> (ribo_excluded cfg r = Inr False \<and> (\<exists>t. row_transaction strptime cfg r = Inr t))"

section \<open>Properties of the Reconciler\<close>

lemma matching_txn_found_ff_iff:
  "matching_txn_found_ff c ffs \<longleftrightarrow> (\<exists>f \<in> set ffs. date c = date f \<and> amount c = amount f)"
  by (induction ffs) auto

lemma matching_txn_found_csv_iff:
  "matching_txn_found_csv f cs \<longleftrightarrow> (\<exists>c \<in> set cs. date c = date f \<and> amount c = amount f)"
  by (induction cs) auto

lemma missing_in_ff_filter:
  "missing_in_ff cs ffs = filter (\<lambda>c. \<not> matching_txn_found_ff c ffs) cs"
  by (induction cs) auto

lemma missing_in_csv_filter:
  "missing_in_csv cs ffs = filter (\<lambda>f. \<not> matching_txn_found_csv f cs) ffs"
  by (induction ffs) auto

text \<open>
  Claim C1. A statement transaction and a ledger transaction match exactly when their
  dates are equal and their amounts are equal; the description plays no part. So the
  first report lists, in order, the statement transactions for which no ledger
  transaction has the same date and amount, the second report the ledger transactions
  for which no statement transaction has them, and for the statement
  [(2024/09/05, 500, Coffee)] and the ledger [(2024/09/05, 500, Coffee Shop)] both
  reports are empty: only the two headings are printed.
\<close>

theorem C1_match_rule:
  "missing_in_ff cs ffs =
     filter (\<lambda>c. \<not> (\<exists>f \<in> set ffs. date c = date f \<and> amount c = amount f)) cs
   \<and> missing_in_csv cs ffs =
     filter (\<lambda>f. \<not> (\<exists>c \<in> set cs. date c = date f \<and> amount c = amount f)) ffs
   \<and> missing_in_ff (map (name_update g) cs) (map (name_update h) ffs) =
     map (name_update g) (missing_in_ff cs ffs)
   \<and> missing_in_csv (map (name_update g) cs) (map (name_update h) ffs) =
     map (name_update h) (missing_in_csv cs ffs)
   \<and> compare_transactions
       [\<lparr>date = ''2024/09/05'', name = ''Coffee'', amount = ''500''\<rparr>]
       [\<lparr>date = ''2024/09/05'', name = ''Coffee Shop'', amount = ''500''\<rparr>]
     = [''###Transactions missing in FF###'', ''###Transactions missing in CSV###'']"
proof (intro conjI)
  show "missing_in_ff cs ffs =
     filter (\<lambda>c. \<not> (\<exists>f \<in> set ffs. date c = date f \<and> amount c = amount f)) cs"
    by (simp add: missing_in_ff_filter matching_txn_found_ff_iff)
  show "missing_in_csv cs ffs =
     filter (\<lambda>f. \<not> (\<exists>c \<in> set cs. date c = date f \<and> amount c = amount f)) ffs"
    by (simp add: missing_in_csv_filter matching_txn_found_csv_iff)
  show "missing_in_ff (map (name_update g) cs) (map (name_update h) ffs) =
     map (name_update g) (missing_in_ff cs ffs)"
    by (simp add: missing_in_ff_filter matching_txn_found_ff_iff filter_map o_def)
  show "missing_in_csv (map (name_update g) cs) (map (name_update h) ffs) =
     map (name_update h) (missing_in_csv cs ffs)"
    by (simp add: missing_in_csv_filter matching_txn_found_csv_iff filter_map o_def)
  show "compare_transactions
       [\<lparr>date = ''2024/09/05'', name = ''Coffee'', amount = ''500''\<rparr>]
       [\<lparr>date = ''2024/09/05'', name = ''Coffee Shop'', amount = ''500''\<rparr>]
     = [''###Transactions missing in FF###'', ''###Transactions missing in CSV###'']"
    by (simp add: compare_transactions_def)
qed

theorem C1_match_rule_witness:
  "missing_in_ff
     [\<lparr>date = ''2024/09/05'', name = ''Coffee'', amount = ''500''\<rparr>,
      \<lparr>date = ''2024/09/06'', name = ''Tea'', amount = ''500''\<rparr>]
     [\<lparr>date = ''2024/09/05'', name = ''Coffee Shop'', amount = ''500''\<rparr>]
   = [\<lparr>date = ''2024/09/06'', name = ''Tea'', amount = ''500''\<rparr>]
   \<and> missing_in_csv
     [\<lparr>date = ''2024/09/05'', name = ''Coffee'', amount = ''500''\<rparr>,
      \<lparr>date = ''2024/09/06'', name = ''Tea'', amount = ''500''\<rparr>]
     [\<lparr>date = ''2024/09/05'', name = ''Coffee Shop'', amount = ''500''\<rparr>]
   = []"
  using C1_match_rule [of
     "[\<lparr>date = ''2024/09/05'', name = ''Coffee'', amount = ''500''\<rparr>,
       \<lparr>date = ''2024/09/06'', name = ''Tea'', amount = ''500''\<rparr>]"
     "[\<lparr>date = ''2024/09/05'', name = ''Coffee Shop'', amount = ''500''\<rparr>]" id id]
  by simp

text \<open>
  Claim C2, as stated, at its own example: with the statement
  [(2024/09/01, 100), (2024/09/01, 100)] and the ledger [(2024/09/01, 100)] the claim
  expects exactly one entry in the first report. The inner loop scans the whole ledger
  list for every statement transaction, so both statement transactions find the one
  ledger transaction and the first report is empty.
\<close>

theorem C2_greedy_counterexample:
  "\<not> (length (missing_in_ff
          [\<lparr>date = ''2024/09/01'', name = ''A'', amount = ''100''\<rparr>,
           \<lparr>date = ''2024/09/01'', name = ''B'', amount = ''100''\<rparr>]
          [\<lparr>date = ''2024/09/01'', name = ''C'', amount = ''100''\<rparr>]) = 1
      \<and> missing_in_csv
          [\<lparr>date = ''2024/09/01'', name = ''A'', amount = ''100''\<rparr>,
           \<lparr>date = ''2024/09/01'', name = ''B'', amount = ''100''\<rparr>]
          [\<lparr>date = ''2024/09/01'', name = ''C'', amount = ''100''\<rparr>] = [])"
  by simp

text \<open>
  Claim C2, amended. Matching is first-found and consumes nothing: in each pass a
  transaction is matched as soon as some transaction of the other sequence has its date
  and amount, however many other transactions that one has matched already. So any number
  of copies of a statement transaction are all matched by a single ledger transaction
  with the same date and amount, and for the statement
  [(2024/09/01, 100), (2024/09/01, 100)] and the ledger [(2024/09/01, 100)] both reports
  are empty.
\<close>

theorem C2_first_found_without_consumption:
  "(f \<in> set ffs \<and> date c = date f \<and> amount c = amount f
      \<longrightarrow> missing_in_ff (replicate n c) ffs = [])
   \<and> (c \<in> set cs \<and> date c = date f \<and> amount c = amount f
      \<longrightarrow> missing_in_csv cs (replicate n f) = [])
   \<and> missing_in_ff
        [\<lparr>date = ''2024/09/01'', name = ''A'', amount = ''100''\<rparr>,
         \<lparr>date = ''2024/09/01'', name = ''B'', amount = ''100''\<rparr>]
        [\<lparr>date = ''2024/09/01'', name = ''C'', amount = ''100''\<rparr>] = []
   \<and> missing_in_csv
        [\<lparr>date = ''2024/09/01'', name = ''A'', amount = ''100''\<rparr>,
         \<lparr>date = ''2024/09/01'', name = ''B'', amount = ''100''\<rparr>]
        [\<lparr>date = ''2024/09/01'', name = ''C'', amount = ''100''\<rparr>] = []"
proof (intro conjI impI)
  assume "f \<in> set ffs \<and> date c = date f \<and> amount c = amount f"
  then have "matching_txn_found_ff c ffs"
    unfolding matching_txn_found_ff_iff by blast
  then show "missing_in_ff (replicate n c) ffs = []"
    by (simp add: missing_in_ff_filter)
next
  assume "c \<in> set cs \<and> date c = date f \<and> amount c = amount f"
  then have "matching_txn_found_csv f cs"
    unfolding matching_txn_found_csv_iff by blast
  then show "missing_in_csv cs (replicate n f) = []"
    by (simp add: missing_in_csv_filter)
qed simp_all

theorem C2_first_found_without_consumption_witness:
  "missing_in_ff
     (replicate 3 \<lparr>date = ''2024/09/01'', name = ''A'', amount = ''100''\<rparr>)
     [\<lparr>date = ''2024/09/02'', name = ''D'', amount = ''7''\<rparr>,
      \<lparr>date = ''2024/09/01'', name = ''C'', amount = ''100''\<rparr>] = []
   \<and> missing_in_csv
     [\<lparr>date = ''2024/09/01'', name = ''A'', amount = ''100''\<rparr>]
     (replicate 3 \<lparr>date = ''2024/09/01'', name = ''C'', amount = ''100''\<rparr>) = []"
  using C2_first_found_without_consumption [where
     f = "\<lparr>date = ''2024/09/01'', name = ''C'', amount = ''100''\<rparr>" and
     ffs = "[\<lparr>date = ''2024/09/02'', name = ''D'', amount = ''7''\<rparr>,
       \<lparr>date = ''2024/09/01'', name = ''C'', amount = ''100''\<rparr>]" and
     c = "\<lparr>date = ''2024/09/01'', name = ''A'', amount = ''100''\<rparr>" and
     cs = "[\<lparr>date = ''2024/09/01'', name = ''A'', amount = ''100''\<rparr>]" and n = 3]
  by simp

section \<open>Properties of the Ledger Client\<close>

subsection \<open>Pagination\<close>

lemma make_api_call_loop_step:
  assumes "read_page (server p) = Inr (items, tp)" and "int (p + 1) \<le> tp"
  shows "make_api_call_loop server p acc lg =
         make_api_call_loop server (Suc p) (acc @ items) (lg @ [p])"
  using assms by (subst make_api_call_loop.simps) simp

lemma make_api_call_loop_prefix:
  assumes "p \<le> p'"
    and "\<forall>q. p \<le> q \<and> q < p' \<longrightarrow> (\<exists>items tp. read_page (server q) = Inr (items, tp) \<and> int (q + 1) \<le> tp)"
  shows "make_api_call_loop server p acc lg =
         make_api_call_loop server p' (acc @ concat (map (page_items server) [p..<p'])) (lg @ [p..<p'])"
  using assms
proof (induction p' rule: dec_induct)
  case base
  then show ?case by simp
next
  case (step n)
  from step.prems step.hyps obtain items tp
    where rp: "read_page (server n) = Inr (items, tp)" and le: "int (n + 1) \<le> tp"
    by (metis lessI)
  have pi: "page_items server n = items" by (simp add: page_items_def rp)
  have "make_api_call_loop server p acc lg =
        make_api_call_loop server n (acc @ concat (map (page_items server) [p..<n])) (lg @ [p..<n])"
    using step by simp
  also have "\<dots> = make_api_call_loop server (Suc n)
        ((acc @ concat (map (page_items server) [p..<n])) @ items) ((lg @ [p..<n]) @ [n])"
    by (rule make_api_call_loop_step [where server = server and p = n, OF rp le])
  finally show ?case using step.hyps by (simp add: pi)
qed

lemma make_api_call_loop_last:
  assumes "read_page (server p) = Inr (items, tp)" and "tp < int (p + 1)"
  shows "make_api_call_loop server p acc lg = Some (lg @ [p], Inr (acc @ items))"
  using assms by (subst make_api_call_loop.simps) simp

lemma make_api_call_loop_error:
  assumes "read_page (server p) = Inl e"
  shows "make_api_call_loop server p acc lg = Some (lg @ [p], Inl e)"
  using assms by (subst make_api_call_loop.simps) simp

lemma length_concat_uniform:
  "(\<And>x. x \<in> set xs \<Longrightarrow> length (f x) = k) \<Longrightarrow> length (concat (map f xs)) = length xs * k"
  by (induction xs) simp_all

text \<open>A page is read exactly when its status is outside 400 to 599 and its body holds the
  items and the page count.\<close>

lemma read_page_Inr_iff:
  "read_page r = Inr (items, tp) \<longleftrightarrow>
     \<not> (400 \<le> status_code r \<and> status_code r < 600)
     \<and> (\<exists>d m pg. json r = Some d \<and> data d = Some items \<and> meta d = Some m
           \<and> pagination m = Some pg \<and> total_pages pg = Some tp)"
  by (auto simp: read_page_def split: option.splits)

lemma read_page_http_error:
  "400 \<le> status_code r \<and> status_code r < 600 \<Longrightarrow> read_page r = Inl (HTTPError (status_code r))"
  by (simp add: read_page_def)

lemma read_page_key_error:
  assumes "\<not> (400 \<le> status_code r \<and> status_code r < 600)" and "json r = Some d"
    and "data d = None \<or> meta d = None
         \<or> (\<exists>m. meta d = Some m \<and> (pagination m = None
               \<or> (\<exists>pg. pagination m = Some pg \<and> total_pages pg = None)))"
  shows "\<exists>k. read_page r = Inl (KeyError k)"
  using assms by (auto simp: read_page_def split: option.splits)

text \<open>
  Claim C5. When the pages 1 to N of the ledger can be read and each reports N pages in
  total (N at least 1), \<^verbatim>\<open>make_api_call\<close> returns: it requests the pages 1, 2, ..., N in
  this order and no other page, and its result is the items of the pages, concatenated
  in that order. When every page holds k items the result holds N * k items.
\<close>

theorem C5_pagination:
  assumes "1 \<le> N"
    and "\<forall>p. 1 \<le> p \<and> p \<le> N \<longrightarrow> read_page (server p) = Inr (items p, int N)"
  shows "make_api_call server = Some ([1..<Suc N], Inr (concat (map items [1..<Suc N])))
       \<and> ((\<forall>p. 1 \<le> p \<and> p \<le> N \<longrightarrow> length (items p) = k)
            \<longrightarrow> length (concat (map items [1..<Suc N])) = N * k)"
proof
  have pre: "\<forall>q. 1 \<le> q \<and> q < N \<longrightarrow>
     (\<exists>its tp. read_page (server q) = Inr (its, tp) \<and> int (q + 1) \<le> tp)"
    using assms(2) by auto
  have items_eq: "map (page_items server) [1..<N] = map items [1..<N]"
    using assms(2) by (auto simp: page_items_def)
  have last: "read_page (server N) = Inr (items N, int N)"
    using assms by simp
  have "make_api_call server =
        make_api_call_loop server N ([] @ concat (map (page_items server) [1..<N])) ([] @ [1..<N])"
    unfolding make_api_call_def
    by (rule make_api_call_loop_prefix [where server = server, OF assms(1) pre])
  also have "\<dots> = Some (([] @ [1..<N]) @ [N], Inr (([] @ concat (map (page_items server) [1..<N])) @ items N))"
    by (rule make_api_call_loop_last [where server = server and p = N, OF last]) simp
  finally have "make_api_call server =
      Some ([1..<N] @ [N], Inr (concat (map items [1..<N]) @ items N))"
    by (simp only: append_Nil items_eq)
  then show "make_api_call server = Some ([1..<Suc N], Inr (concat (map items [1..<Suc N])))"
    using assms(1) by simp
next
  show "(\<forall>p. 1 \<le> p \<and> p \<le> N \<longrightarrow> length (items p) = k)
            \<longrightarrow> length (concat (map items [1..<Suc N])) = N * k"
  proof
    assume a: "\<forall>p. 1 \<le> p \<and> p \<le> N \<longrightarrow> length (items p) = k"
    have "length (concat (map items [1..<Suc N])) = length [1..<Suc N] * k"
      by (rule length_concat_uniform) (use a in auto)
    then show "length (concat (map items [1..<Suc N])) = N * k"
      by simp
  qed
qed


theorem C5_pagination_witness:
  "make_api_call (\<lambda>p. \<lparr>status_code = 200, json = Some \<lparr>data = Some [p, p + 10],
       meta = Some \<lparr>pagination = Some \<lparr>total_pages = Some 2\<rparr>\<rparr>\<rparr>\<rparr>)
   = Some ([1, 2], Inr [1, 11, 2, 12])"
  using C5_pagination [where N = 2 and k = 2 and items = "\<lambda>p. [p, p + 10]" and
      server = "\<lambda>p. \<lparr>status_code = 200, json = Some \<lparr>data = Some [p, p + 10],
       meta = Some \<lparr>pagination = Some \<lparr>total_pages = Some 2\<rparr>\<rparr>\<rparr>\<rparr>"]
  by (simp add: read_page_def upt_rec)

text \<open>
  Claim C8, as stated, at a status that is not 2xx: the ledger answers 300 with a body
  that holds one item and reports one page. \<^verbatim>\<open>raise_for_status\<close> raises for the
  statuses 400 to 599 only, so the call returns the item and no error.
\<close>

theorem C8_non_2xx_counterexample:
  "make_api_call (\<lambda>p. \<lparr>status_code = 300, json = Some \<lparr>data = Some [''a''],
       meta = Some \<lparr>pagination = Some \<lparr>total_pages = Some 1\<rparr>\<rparr>\<rparr>\<rparr>)
   = Some ([1], Inr [''a''])"
  unfolding make_api_call_def
  by (subst make_api_call_loop.simps) (simp add: read_page_def)

text \<open>
  Claim C8, amended. Let the pages before page p be read and ask for more, so that page
  p is requested. If the status of page p lies between 400 and 599, the call fails with
  HTTPError (the spec's TransportError) carrying that status; if the status is outside
  that range and the JSON body lacks \<^verbatim>\<open>data\<close>, \<^verbatim>\<open>meta\<close>, \<^verbatim>\<open>pagination\<close> or
  \<^verbatim>\<open>total_pages\<close>, it fails with KeyError (the spec's ProtocolError). In both cases the
  pages requested are 1 to p, each once: page p is not requested again and no later page
  is requested, and the outcome is the exception alone, without the items of the pages
  read before.
\<close>

theorem C8_failures:
  assumes "1 \<le> p"
    and "\<forall>q. 1 \<le> q \<and> q < p \<longrightarrow>
           (\<exists>items tp. read_page (server q) = Inr (items, tp) \<and> int (q + 1) \<le> tp)"
  shows "(400 \<le> status_code (server p) \<and> status_code (server p) < 600 \<longrightarrow>
            make_api_call server = Some ([1..<Suc p], Inl (HTTPError (status_code (server p)))))
       \<and> (\<not> (400 \<le> status_code (server p) \<and> status_code (server p) < 600)
          \<and> json (server p) = Some d
          \<and> (data d = None \<or> meta d = None
              \<or> (\<exists>m. meta d = Some m \<and> (pagination m = None
                    \<or> (\<exists>pg. pagination m = Some pg \<and> total_pages pg = None)))) \<longrightarrow>
            (\<exists>k. make_api_call server = Some ([1..<Suc p], Inl (KeyError k))))"
proof -
  have run: "make_api_call server =
      make_api_call_loop server p (concat (map (page_items server) [1..<p])) [1..<p]"
    unfolding make_api_call_def
    using make_api_call_loop_prefix [where server = server and acc = "[]" and lg = "[]",
        OF assms(1) assms(2)]
    by simp
  have fail: "make_api_call server = Some ([1..<Suc p], Inl e)" if "read_page (server p) = Inl e" for e
    using make_api_call_loop_error [where server = server and p = p, OF that] assms(1)
    by (simp add: run)
  show ?thesis
  proof (intro conjI impI)
    assume "400 \<le> status_code (server p) \<and> status_code (server p) < 600"
    then show "make_api_call server = Some ([1..<Suc p], Inl (HTTPError (status_code (server p))))"
      by (intro fail read_page_http_error)
  next
    assume a: "\<not> (400 \<le> status_code (server p) \<and> status_code (server p) < 600)
          \<and> json (server p) = Some d
          \<and> (data d = None \<or> meta d = None
              \<or> (\<exists>m. meta d = Some m \<and> (pagination m = None
                    \<or> (\<exists>pg. pagination m = Some pg \<and> total_pages pg = None))))"
    then obtain k where "read_page (server p) = Inl (KeyError k)"
      using read_page_key_error [of "server p" d] by blast
    then show "\<exists>k. make_api_call server = Some ([1..<Suc p], Inl (KeyError k))"
      using fail by blast
  qed
qed

theorem C8_failures_witness:
  "make_api_call (\<lambda>p. if p = 1
       then \<lparr>status_code = 200, json = Some \<lparr>data = Some [''a''],
               meta = Some \<lparr>pagination = Some \<lparr>total_pages = Some 2\<rparr>\<rparr>\<rparr>\<rparr>
       else \<lparr>status_code = 503, json = None\<rparr>)
   = Some ([1, 2], Inl (HTTPError 503))"
  using C8_failures [where p = 2 and server = "\<lambda>p. if p = 1
       then \<lparr>status_code = 200, json = Some \<lparr>data = Some [''a''],
               meta = Some \<lparr>pagination = Some \<lparr>total_pages = Some 2\<rparr>\<rparr>\<rparr>\<rparr>
       else \<lparr>status_code = 503, json = None\<rparr>"]
  by (simp add: read_page_def upt_rec)

subsection \<open>Account resolution\<close>

lemma find_account_id_None:
  "find_account_id accounts n = None \<longleftrightarrow> (\<forall>a \<in> set accounts. acc_name a \<noteq> n)"
  by (induction accounts) auto

lemma find_account_id_Some:
  "find_account_id accounts n = Some i \<Longrightarrow> \<exists>a \<in> set accounts. acc_name a = n \<and> acc_id a = i"
  by (induction accounts) (auto split: if_splits)

text \<open>
  Claim C9. Let \<^verbatim>\<open>make_api_call\<close> return the account list. If some account of the list
  has exactly the name asked for, \<^verbatim>\<open>get_account_id\<close> returns the identifier of an
  account of the list with that name; if none has, it returns \<^verbatim>\<open>None\<close>, a value and not
  an exception. Names are compared as strings, so a name that differs in case only is
  another name.
\<close>

theorem C9_account_resolution:
  assumes "make_api_call server = Some (requested, Inr accounts)"
  shows "((\<exists>a \<in> set accounts. acc_name a = n) \<longrightarrow>
            (\<exists>a \<in> set accounts. acc_name a = n \<and> get_account_id server n = Some (Inr (Some (acc_id a)))))
       \<and> ((\<forall>a \<in> set accounts. acc_name a \<noteq> n) \<longrightarrow> get_account_id server n = Some (Inr None))"
proof (intro conjI impI)
  assume "\<exists>a \<in> set accounts. acc_name a = n"
  then obtain i where i: "find_account_id accounts n = Some i"
    using find_account_id_None [of accounts n] by fastforce
  from find_account_id_Some [OF i] obtain a
    where "a \<in> set accounts" "acc_name a = n" "acc_id a = i" by blast
  then show "\<exists>a \<in> set accounts. acc_name a = n \<and> get_account_id server n = Some (Inr (Some (acc_id a)))"
    using assms i by (auto simp: get_account_id_def)
next
  assume "\<forall>a \<in> set accounts. acc_name a \<noteq> n"
  then have "find_account_id accounts n = None"
    by (simp add: find_account_id_None)
  then show "get_account_id server n = Some (Inr None)"
    using assms by (simp add: get_account_id_def)
qed

theorem C9_account_resolution_witness:
  "get_account_id (\<lambda>p. \<lparr>status_code = 200, json = Some \<lparr>data = Some
       [\<lparr>acc_id = ''1'', acc_name = ''Visa''\<rparr>, \<lparr>acc_id = ''2'', acc_name = ''visa''\<rparr>],
       meta = Some \<lparr>pagination = Some \<lparr>total_pages = Some 1\<rparr>\<rparr>\<rparr>\<rparr>) ''visa''
     = Some (Inr (Some ''2''))
   \<and> get_account_id (\<lambda>p. \<lparr>status_code = 200, json = Some \<lparr>data = Some
       [\<lparr>acc_id = ''1'', acc_name = ''Visa''\<rparr>, \<lparr>acc_id = ''2'', acc_name = ''visa''\<rparr>],
       meta = Some \<lparr>pagination = Some \<lparr>total_pages = Some 1\<rparr>\<rparr>\<rparr>\<rparr>) ''VISA''
     = Some (Inr None)"
proof -
  let ?accounts = "[\<lparr>acc_id = ''1'', acc_name = ''Visa''\<rparr>, \<lparr>acc_id = ''2'', acc_name = ''visa''\<rparr>]"
  let ?server = "\<lambda>p::nat. \<lparr>status_code = 200, json = Some \<lparr>data = Some ?accounts,
       meta = Some \<lparr>pagination = Some \<lparr>total_pages = Some 1\<rparr>\<rparr>\<rparr>\<rparr>"
  have m: "make_api_call ?server = Some ([1], Inr ?accounts)"
    unfolding make_api_call_def
    by (subst make_api_call_loop.simps) (simp add: read_page_def)
  show ?thesis
    using C9_account_resolution [OF m, of "''visa''"] C9_account_resolution [OF m, of "''VISA''"]
    by simp
qed

subsection \<open>Normalization of ledger transactions\<close>

lemma py_split_not_Nil: "py_split sep s \<noteq> []"
  by (induction s) (auto split: list.splits)

lemma hd_py_split: "hd (py_split sep s) = takeWhile (\<lambda>c. c \<noteq> sep) s"
  by (induction s) (auto split: list.splits simp: py_split_not_Nil)

lemma integer_part_eq: "integer_part s = Inr (takeWhile (\<lambda>c. c \<noteq> CHR ''.'') s)"
proof -
  obtain p ps where "py_split (CHR ''.'') s = p # ps"
    using py_split_not_Nil [of "CHR ''.''" s] by (cases "py_split (CHR ''.'') s") auto
  then show ?thesis
    using hd_py_split [of "CHR ''.''" s] by (simp add: integer_part_def py_index_def)
qed

lemma truncated_int_eq: "truncated_int s = py_int (takeWhile (\<lambda>c. c \<noteq> CHR ''.'') s)"
  by (simp add: truncated_int_def integer_part_eq)

lemma total_cost_loop_sum:
  "(\<And>x. x \<in> set legs \<Longrightarrow> truncated_int (leg_amount x) = Inr (v x))
   \<Longrightarrow> total_cost_loop acc legs = Inr (acc + sum_list (map v legs))"
  by (induction legs arbitrary: acc) simp_all







text \<open>
  Claim C3. Take a transaction group with at least one leg whose first leg has a date
  that parses. If the group title is a non-empty string and the part before the first
  dot of every leg's amount reads as an integer, the canonical amount is the decimal
  text of the sum of these integers over all legs (the sum is printed as it is) and the
  canonical description is the group title. If the title is null or empty, the canonical
  amount is the part of the first leg's amount before its first dot and the canonical
  description is the first leg's description. In both cases the canonical date is the
  parsed date of the first leg. The integer a leg contributes is \<^verbatim>\<open>int\<close> of the part
  before the first dot of its amount.
\<close>

theorem C3_normalization:
  assumes "transactions g = l # ls"
    and "strptime (leg_date l) ''%Y-%m-%dT%H:%M:%S+00:00'' = Some d"
  shows "(group_title g = Some t \<and> t \<noteq> []
            \<and> (\<forall>x \<in> set (transactions g). truncated_int (leg_amount x) = Inr (v x)) \<longrightarrow>
          format_transaction strptime g =
            Inr \<lparr>date = d, name = t, amount = str_int (sum_list (map v (transactions g)))\<rparr>)
       \<and> (group_title g = None \<or> group_title g = Some [] \<longrightarrow>
          format_transaction strptime g =
            Inr \<lparr>date = d, name = description l,
                 amount = takeWhile (\<lambda>c. c \<noteq> CHR ''.'') (leg_amount l)\<rparr>)
       \<and> truncated_int (leg_amount l) = py_int (takeWhile (\<lambda>c. c \<noteq> CHR ''.'') (leg_amount l))"
proof (intro conjI impI)
  have first: "py_index (transactions g) 0 = Some l"
    using assms(1) by (simp add: py_index_def)
  {
    assume a: "group_title g = Some t \<and> t \<noteq> []
            \<and> (\<forall>x \<in> set (transactions g). truncated_int (leg_amount x) = Inr (v x))"
    then obtain c cs where t: "t = c # cs" by (cases t) auto
    have "total_cost_loop 0 (transactions g) = Inr (0 + sum_list (map v (transactions g)))"
      by (rule total_cost_loop_sum) (use a in blast)
    then have "name_and_amount g = Inr (t, str_int (sum_list (map v (transactions g))))"
      using a t by (simp add: name_and_amount_def)
    then show "format_transaction strptime g =
            Inr \<lparr>date = d, name = t, amount = str_int (sum_list (map v (transactions g)))\<rparr>"
      using first assms(2) by (simp add: format_transaction_def)
  }
  {
    assume "group_title g = None \<or> group_title g = Some []"
    then have "name_and_amount g =
        Inr (description l, takeWhile (\<lambda>c. c \<noteq> CHR ''.'') (leg_amount l))"
      using first by (auto simp: name_and_amount_def integer_part_eq)
    then show "format_transaction strptime g =
            Inr \<lparr>date = d, name = description l,
                 amount = takeWhile (\<lambda>c. c \<noteq> CHR ''.'') (leg_amount l)\<rparr>"
      using first assms(2) by (simp add: format_transaction_def)
  }
  show "truncated_int (leg_amount l) = py_int (takeWhile (\<lambda>c. c \<noteq> CHR ''.'') (leg_amount l))"
    by (rule truncated_int_eq)
qed

theorem C3_normalization_witness:
  "format_transaction sample_strptime
     \<lparr>group_title = Some ''Groceries'', transactions =
        [\<lparr>source_id = ''1'', leg_amount = ''100.50'', leg_date = ''2024-09-05T00:00:00+00:00'',
          description = ''Bread''\<rparr>,
         \<lparr>source_id = ''1'', leg_amount = ''-20.99'', leg_date = ''2024-09-05T00:00:00+00:00'',
          description = ''Refund''\<rparr>]\<rparr>
   = Inr \<lparr>date = ''2024/09/05'', name = ''Groceries'', amount = ''80''\<rparr>
   \<and> format_transaction sample_strptime
     \<lparr>group_title = None, transactions =
        [\<lparr>source_id = ''1'', leg_amount = ''12.99'', leg_date = ''2024-09-05T00:00:00+00:00'',
          description = ''Coffee Shop''\<rparr>]\<rparr>
   = Inr \<lparr>date = ''2024/09/05'', name = ''Coffee Shop'', amount = ''12''\<rparr>"
proof -
  let ?l1 = "\<lparr>source_id = ''1'', leg_amount = ''100.50'',
     leg_date = ''2024-09-05T00:00:00+00:00'', description = ''Bread''\<rparr>"
  let ?l2 = "\<lparr>source_id = ''1'', leg_amount = ''-20.99'',
     leg_date = ''2024-09-05T00:00:00+00:00'', description = ''Refund''\<rparr>"
  let ?l3 = "\<lparr>source_id = ''1'', leg_amount = ''12.99'',
     leg_date = ''2024-09-05T00:00:00+00:00'', description = ''Coffee Shop''\<rparr>"
  let ?v = "\<lambda>x. if leg_amount x = ''100.50'' then 100 else (- 20 :: int)"
  have d: "sample_strptime ''2024-09-05T00:00:00+00:00'' ''%Y-%m-%dT%H:%M:%S+00:00''
      = Some ''2024/09/05''"
    by code_simp
  have t1: "truncated_int ''100.50'' = Inr 100" by code_simp
  have t2: "truncated_int ''-20.99'' = Inr (- 20)" by code_simp
  have s: "str_int 80 = ''80''" by code_simp
  have k: "takeWhile (\<lambda>c. c \<noteq> CHR ''.'') ''12.99'' = ''12''" by simp
  show ?thesis
    using C3_normalization [where g = "\<lparr>group_title = Some ''Groceries'', transactions = [?l1, ?l2]\<rparr>"
        and l = ?l1 and ls = "[?l2]" and strptime = sample_strptime and d = "''2024/09/05''"
        and t = "''Groceries''" and v = ?v]
      C3_normalization [where g = "\<lparr>group_title = None, transactions = [?l3]\<rparr>"
        and l = ?l3 and ls = "[]" and strptime = sample_strptime and d = "''2024/09/05''"
        and t = "[]" and v = ?v]
    by (simp add: d t1 t2 s k)
qed


subsection \<open>Amounts of canonical transactions\<close>






lemma row_transaction_Inr:
  "row_transaction strptime cfg r = Inr t \<longleftrightarrow>
     (\<exists>d. py_index r (date_column cfg) = Some d
        \<and> strptime d (date_format cfg) = Some (date t))
     \<and> py_index r (description_column cfg) = Some (name t)
     \<and> py_index r (amount_column cfg) = Some (amount t)"
  by (cases t) (auto simp: row_transaction_def split: option.splits)

lemma read_rows_Inr:
  "read_rows strptime cfg rows acc = Inr ts \<longleftrightarrow>
     (\<forall>r \<in> set rows. row_parses strptime cfg r)
     \<and> ts = acc @ map (\<lambda>r. projr (row_transaction strptime cfg r))
                     (filter (\<lambda>r. ribo_excluded cfg r = Inr False) rows)"
proof (induction rows arbitrary: acc)
  case Nil
  then show ?case by auto
next
  case (Cons r rows)
  show ?case
  proof (cases "ribo_excluded cfg r")
    case (Inl e)
    then show ?thesis by (simp add: row_parses_def)
  next
    case (Inr b)
    show ?thesis
    proof (cases b)
      case True
      then show ?thesis using Inr Cons.IH [of acc] by (simp add: row_parses_def)
    next
      case False
      show ?thesis
      proof (cases "row_transaction strptime cfg r")
        case (Inl e)
        then show ?thesis using Inr False by (simp add: row_parses_def)
      next
        case (Inr t)
        then show ?thesis using \<open>ribo_excluded cfg r = Inr b\<close> False Cons.IH [of "acc @ [t]"]
          by (simp add: row_parses_def)
      qed
    qed
  qed
qed







section \<open>Properties of the CSV Normalizer\<close>

lemma ribo_excluded_error: "ribo_excluded cfg r = Inl e \<Longrightarrow> e = IndexError"
  by (auto simp: ribo_excluded_def split: if_splits option.splits)

lemma row_transaction_error:
  "row_transaction strptime cfg r = Inl e \<Longrightarrow> e = IndexError \<or> e = ValueError"
  by (auto simp: row_transaction_def split: option.splits)

lemma read_rows_error:
  "read_rows strptime cfg rows acc = Inl e \<Longrightarrow> e = IndexError \<or> e = ValueError"
proof (induction rows arbitrary: acc)
  case Nil
  then show ?case by simp
next
  case (Cons r rows)
  then show ?case
    by (auto split: sum.splits bool.splits dest: ribo_excluded_error row_transaction_error)
qed

lemma read_csv_body:
  "has_header cfg = PStr ''True'' \<longrightarrow> csv_rows \<noteq> [] \<Longrightarrow>
   read_csv strptime cfg csv_rows = read_rows strptime cfg (body_rows cfg csv_rows) []"
  by (cases csv_rows) (auto simp: read_csv_def body_rows_def)

lemma py_in_sublist: "py_in needle s \<longleftrightarrow> sublist needle s"
  by (induction s) (simp_all add: sublist_Cons_right)

lemma ribo_excluded_True:
  "ribo_excluded cfg r = Inr True \<longleftrightarrow>
     has_ribo cfg = PStr ''True''
     \<and> (\<exists>r1. py_index r 1 = Some r1
          \<and> (sublist conversion_marker r1 \<or> sublist ribo_marker r1
              \<or> (\<exists>r3. py_index r 3 = Some r3 \<and> sublist ribo_marker r3)))"
  by (auto simp: ribo_excluded_def py_in_sublist split: option.splits)

lemma length_filter_two:
  "(\<And>x. x \<in> set xs \<Longrightarrow> P x \<noteq> Q x) \<Longrightarrow>
   length (filter P xs) + length (filter Q xs) = length xs"
  by (induction xs) auto

text \<open>The loop body runs through on a row exactly when the fields the exclusion test
  reads exist and, unless the row is excluded, the three configured columns exist and the
  date parses.\<close>

lemma row_parses_iff:
  "row_parses strptime cfg r \<longleftrightarrow>
     (has_ribo cfg = PStr ''True'' \<longrightarrow>
        (\<exists>r1. py_index r 1 = Some r1
           \<and> (sublist conversion_marker r1 \<or> sublist ribo_marker r1 \<or> py_index r 3 \<noteq> None)))
     \<and> (ribo_excluded cfg r \<noteq> Inr True \<longrightarrow>
        (\<exists>d. py_index r (date_column cfg) = Some d \<and> strptime d (date_format cfg) \<noteq> None)
        \<and> py_index r (description_column cfg) \<noteq> None
        \<and> py_index r (amount_column cfg) \<noteq> None)"
proof -
  have t: "(\<exists>t. row_transaction strptime cfg r = Inr t) \<longleftrightarrow>
        (\<exists>d. py_index r (date_column cfg) = Some d \<and> strptime d (date_format cfg) \<noteq> None)
        \<and> py_index r (description_column cfg) \<noteq> None
        \<and> py_index r (amount_column cfg) \<noteq> None"
    by (auto simp: row_transaction_def split: option.splits)
  have e: "(\<exists>b. ribo_excluded cfg r = Inr b) \<longleftrightarrow>
     (has_ribo cfg = PStr ''True'' \<longrightarrow>
        (\<exists>r1. py_index r 1 = Some r1
           \<and> (sublist conversion_marker r1 \<or> sublist ribo_marker r1 \<or> py_index r 3 \<noteq> None)))"
    by (auto simp: ribo_excluded_def py_in_sublist split: option.splits)
  have "row_parses strptime cfg r \<longleftrightarrow>
      (\<exists>b. ribo_excluded cfg r = Inr b)
      \<and> (ribo_excluded cfg r \<noteq> Inr True \<longrightarrow> (\<exists>t. row_transaction strptime cfg r = Inr t))"
    by (auto simp: row_parses_def)
  then show ?thesis unfolding t e .
qed

text \<open>
  Claim C6, as stated, on three inputs. First, the empty file with \<^verbatim>\<open>has_header\<close> set:
  every row parses, as there is none, and the claim expects an output of no transaction;
  \<^verbatim>\<open>next(reader)\<close> has no row to skip and raises StopIteration. Second, a configuration
  with the description in column 2 and the amount in column 5 and \<^verbatim>\<open>has_ribo\<close> set: the
  row with the revolving-credit marker in its description field and the row with the
  marker in the field next to the amount are both emitted, while the rows with the marker
  at index 1 or at index 3, which here are neither the description nor next to the
  amount, are both dropped. The test reads \<^verbatim>\<open>row[1]\<close> and \<^verbatim>\<open>row[3]\<close> whatever the
  configured columns are. Third, a row of three fields that has every configured column
  and a date that parses: with \<^verbatim>\<open>has_ribo\<close> set and no marker at index 1 the test reads
  \<^verbatim>\<open>row[3]\<close> and raises IndexError, so nothing is emitted.
\<close>

theorem C6_row_count_counterexample:
  "read_csv sample_strptime
     \<lparr>has_header = PStr ''True'', has_ribo = PStr ''True'', date_column = 0,
      description_column = 1, amount_column = 2, date_format = ''%Y/%m/%d''\<rparr> []
   = Inl StopIteration
   \<and> read_csv sample_strptime
     \<lparr>has_header = PStr ''False'', has_ribo = PStr ''True'', date_column = 0,
      description_column = 2, amount_column = 5, date_format = ''%Y/%m/%d''\<rparr>
     [[''2024/09/01'', ''memo'', ''Card '' @ ribo_marker, ''x'', ''y'', ''100''],
      [''2024/09/02'', ''memo'', ''Shop'', ''x'', ribo_marker, ''200''],
      [''2024/09/03'', ribo_marker, ''Shop'', ''x'', ''y'', ''300''],
      [''2024/09/04'', ''memo'', ''Shop'', ribo_marker, ''y'', ''400'']]
   = Inr [\<lparr>date = ''2024/09/01'', name = ''Card '' @ ribo_marker, amount = ''100''\<rparr>,
          \<lparr>date = ''2024/09/02'', name = ''Shop'', amount = ''200''\<rparr>]
   \<and> read_csv sample_strptime
     \<lparr>has_header = PStr ''False'', has_ribo = PStr ''True'', date_column = 0,
      description_column = 1, amount_column = 2, date_format = ''%Y/%m/%d''\<rparr>
     [[''2024/09/05'', ''Coffee'', ''500'']]
   = Inl IndexError"
proof (intro conjI)
  show "read_csv sample_strptime
     \<lparr>has_header = PStr ''True'', has_ribo = PStr ''True'', date_column = 0,
      description_column = 1, amount_column = 2, date_format = ''%Y/%m/%d''\<rparr> []
   = Inl StopIteration"
    by (simp add: read_csv_def)
  show "read_csv sample_strptime
     \<lparr>has_header = PStr ''False'', has_ribo = PStr ''True'', date_column = 0,
      description_column = 2, amount_column = 5, date_format = ''%Y/%m/%d''\<rparr>
     [[''2024/09/01'', ''memo'', ''Card '' @ ribo_marker, ''x'', ''y'', ''100''],
      [''2024/09/02'', ''memo'', ''Shop'', ''x'', ribo_marker, ''200''],
      [''2024/09/03'', ribo_marker, ''Shop'', ''x'', ''y'', ''300''],
      [''2024/09/04'', ''memo'', ''Shop'', ribo_marker, ''y'', ''400'']]
   = Inr [\<lparr>date = ''2024/09/01'', name = ''Card '' @ ribo_marker, amount = ''100''\<rparr>,
          \<lparr>date = ''2024/09/02'', name = ''Shop'', amount = ''200''\<rparr>]"
    by code_simp
  show "read_csv sample_strptime
     \<lparr>has_header = PStr ''False'', has_ribo = PStr ''True'', date_column = 0,
      description_column = 1, amount_column = 2, date_format = ''%Y/%m/%d''\<rparr>
     [[''2024/09/05'', ''Coffee'', ''500'']]
   = Inl IndexError"
    by code_simp
qed

text \<open>
  Claim C6, amended. Let the file have at least one row when \<^verbatim>\<open>has_header\<close> is set. Let
  every row after the skipped header have, when \<^verbatim>\<open>has_ribo\<close> is set, a field at index 1
  and, unless that field contains one of the two markers, a field at index 3; and let
  every such row that is not excluded have the configured date, description and amount
  columns and a date that parses under the configured format. Then \<^verbatim>\<open>read_csv\<close>
  returns, in order, one canonical transaction for each row that is neither the skipped
  header nor excluded, so the number of transactions, the number of excluded rows and
  the header (if skipped) add up to the number of rows. A row is excluded exactly when
  \<^verbatim>\<open>has_ribo\<close> is set and its field at index 1 contains the conversion marker or the
  revolving-credit marker, or its field at index 3 contains the revolving-credit marker.
  The indices 1 and 3 are fixed: the configured description and amount columns play no
  part in the exclusion.
\<close>

theorem C6_row_count:
  assumes "has_header cfg = PStr ''True'' \<longrightarrow> csv_rows \<noteq> []"
    and "\<forall>r \<in> set (body_rows cfg csv_rows).
           (has_ribo cfg = PStr ''True'' \<longrightarrow>
              (\<exists>r1. py_index r 1 = Some r1
                 \<and> (sublist conversion_marker r1 \<or> sublist ribo_marker r1
                     \<or> py_index r 3 \<noteq> None)))
           \<and> (ribo_excluded cfg r \<noteq> Inr True \<longrightarrow>
              (\<exists>d. py_index r (date_column cfg) = Some d
                 \<and> strptime d (date_format cfg) \<noteq> None)
              \<and> py_index r (description_column cfg) \<noteq> None
              \<and> py_index r (amount_column cfg) \<noteq> None)"
  shows "(\<exists>ts. read_csv strptime cfg csv_rows = Inr ts
            \<and> ts = map (\<lambda>r. projr (row_transaction strptime cfg r))
                      (filter (\<lambda>r. ribo_excluded cfg r \<noteq> Inr True) (body_rows cfg csv_rows))
            \<and> length ts
                + length (filter (\<lambda>r. ribo_excluded cfg r = Inr True) (body_rows cfg csv_rows))
                + (if has_header cfg = PStr ''True'' then 1 else 0)
              = length csv_rows)
       \<and> (ribo_excluded cfg r = Inr True \<longleftrightarrow>
            has_ribo cfg = PStr ''True''
            \<and> (\<exists>r1. py_index r 1 = Some r1
                 \<and> (sublist conversion_marker r1 \<or> sublist ribo_marker r1
                     \<or> (\<exists>r3. py_index r 3 = Some r3 \<and> sublist ribo_marker r3))))"
proof
  let ?body = "body_rows cfg csv_rows"
  let ?ts = "map (\<lambda>r. projr (row_transaction strptime cfg r))
               (filter (\<lambda>r. ribo_excluded cfg r = Inr False) ?body)"
  have parses: "\<forall>r \<in> set ?body. row_parses strptime cfg r"
    using assms(2) unfolding row_parses_iff .
  have same: "filter (\<lambda>r. ribo_excluded cfg r \<noteq> Inr True) ?body
      = filter (\<lambda>r. ribo_excluded cfg r = Inr False) ?body"
    by (rule filter_cong) (use parses in \<open>auto simp: row_parses_def\<close>)
  have "read_rows strptime cfg ?body [] = Inr ([] @ ?ts)"
    unfolding read_rows_Inr using parses by simp
  then have run: "read_csv strptime cfg csv_rows = Inr ?ts"
    using read_csv_body [OF assms(1), of strptime] by simp
  have "length (filter (\<lambda>r. ribo_excluded cfg r = Inr False) ?body)
      + length (filter (\<lambda>r. ribo_excluded cfg r = Inr True) ?body) = length ?body"
    by (rule length_filter_two) (use parses in \<open>auto simp: row_parses_def\<close>)
  moreover have "length ?body + (if has_header cfg = PStr ''True'' then 1 else 0) = length csv_rows"
    using assms(1) by (cases csv_rows) (auto simp: body_rows_def)
  ultimately have "length ?ts
      + length (filter (\<lambda>r. ribo_excluded cfg r = Inr True) ?body)
      + (if has_header cfg = PStr ''True'' then 1 else 0) = length csv_rows"
    by simp
  with run show "\<exists>ts. read_csv strptime cfg csv_rows = Inr ts
            \<and> ts = map (\<lambda>r. projr (row_transaction strptime cfg r))
                      (filter (\<lambda>r. ribo_excluded cfg r \<noteq> Inr True) ?body)
            \<and> length ts
                + length (filter (\<lambda>r. ribo_excluded cfg r = Inr True) ?body)
                + (if has_header cfg = PStr ''True'' then 1 else 0)
              = length csv_rows"
    unfolding same by blast
next
  show "ribo_excluded cfg r = Inr True \<longleftrightarrow>
            has_ribo cfg = PStr ''True''
            \<and> (\<exists>r1. py_index r 1 = Some r1
                 \<and> (sublist conversion_marker r1 \<or> sublist ribo_marker r1
                     \<or> (\<exists>r3. py_index r 3 = Some r3 \<and> sublist ribo_marker r3)))"
    by (rule ribo_excluded_True)
qed

theorem C6_row_count_witness:
  "read_csv sample_strptime
     \<lparr>has_header = PStr ''True'', has_ribo = PStr ''True'', date_column = 0,
      description_column = 2, amount_column = 4, date_format = ''%Y/%m/%d''\<rparr>
     [[''Date'', ''Memo'', ''Shop'', ''Note'', ''Amount''],
      [''2024/09/05'', ''a'', ''Coffee'', '''', ''500''],
      [''2024/09/06'', ribo_marker, ''Tea'', '''', ''100''],
      [''2024/09/07'', ''b'', ''Cake'', ribo_marker, ''300''],
      [''2024/09/08'', conversion_marker, ''Book'', '''', ''700'']]
   = Inr [\<lparr>date = ''2024/09/05'', name = ''Coffee'', amount = ''500''\<rparr>]"
proof -
  let ?cfg = "\<lparr>has_header = PStr ''True'', has_ribo = PStr ''True'', date_column = 0,
      description_column = 2, amount_column = 4, date_format = ''%Y/%m/%d''\<rparr>"
  let ?r1 = "[''2024/09/05'', ''a'', ''Coffee'', '''', ''500'']"
  let ?r2 = "[''2024/09/06'', ribo_marker, ''Tea'', '''', ''100'']"
  let ?r3 = "[''2024/09/07'', ''b'', ''Cake'', ribo_marker, ''300'']"
  let ?r4 = "[''2024/09/08'', conversion_marker, ''Book'', '''', ''700'']"
  let ?rows = "[[''Date'', ''Memo'', ''Shop'', ''Note'', ''Amount''], ?r1, ?r2, ?r3, ?r4]"
  have b: "body_rows ?cfg ?rows = [?r1, ?r2, ?r3, ?r4]"
    by (simp add: body_rows_def)
  have e1: "ribo_excluded ?cfg ?r1 = Inr False" by code_simp
  have e2: "ribo_excluded ?cfg ?r2 = Inr True" by code_simp
  have e3: "ribo_excluded ?cfg ?r3 = Inr True" by code_simp
  have e4: "ribo_excluded ?cfg ?r4 = Inr True" by code_simp
  have t1: "row_transaction sample_strptime ?cfg ?r1
      = Inr \<lparr>date = ''2024/09/05'', name = ''Coffee'', amount = ''500''\<rparr>"
    by code_simp
  have h1: "has_header ?cfg = PStr ''True'' \<longrightarrow> ?rows \<noteq> []" by simp
  have "\<forall>r \<in> set (body_rows ?cfg ?rows). row_parses sample_strptime ?cfg r"
    unfolding b by (simp add: row_parses_def e1 e2 e3 e4 t1)
  then have h2: "\<forall>r \<in> set (body_rows ?cfg ?rows).
           (has_ribo ?cfg = PStr ''True'' \<longrightarrow>
              (\<exists>r1. py_index r 1 = Some r1
                 \<and> (sublist conversion_marker r1 \<or> sublist ribo_marker r1
                     \<or> py_index r 3 \<noteq> None)))
           \<and> (ribo_excluded ?cfg r \<noteq> Inr True \<longrightarrow>
              (\<exists>d. py_index r (date_column ?cfg) = Some d
                 \<and> sample_strptime d (date_format ?cfg) \<noteq> None)
              \<and> py_index r (description_column ?cfg) \<noteq> None
              \<and> py_index r (amount_column ?cfg) \<noteq> None)"
    unfolding row_parses_iff .
  from C6_row_count [where strptime = sample_strptime, OF h1 h2] obtain ts
    where r: "read_csv sample_strptime ?cfg ?rows = Inr ts"
      and ts: "ts = map (\<lambda>r. projr (row_transaction sample_strptime ?cfg r))
                      (filter (\<lambda>r. ribo_excluded ?cfg r \<noteq> Inr True) (body_rows ?cfg ?rows))"
    by blast
  have "filter (\<lambda>r. ribo_excluded ?cfg r \<noteq> Inr True) [?r1, ?r2, ?r3, ?r4] = [?r1]"
    unfolding filter.simps e1 e2 e3 e4 by simp
  then have "ts = [\<lparr>date = ''2024/09/05'', name = ''Coffee'', amount = ''500''\<rparr>]"
    unfolding ts b by (simp only: list.map t1 sum.sel)
  with r show ?thesis by simp
qed

text \<open>
  Claim C7. If some row after the skipped header is not excluded and lacks the date, the
  description or the amount column of the configuration, or has a date that does not
  parse under the configured format, then \<^verbatim>\<open>read_csv\<close> raises IndexError or ValueError
  (the spec's MalformedRow) and returns no transaction at all, whatever the other rows
  are.
\<close>

theorem C7_malformed_row:
  assumes "r \<in> set (body_rows cfg csv_rows)"
    and "ribo_excluded cfg r \<noteq> Inr True"
    and "py_index r (date_column cfg) = None
         \<or> py_index r (description_column cfg) = None
         \<or> py_index r (amount_column cfg) = None
         \<or> (\<exists>d. py_index r (date_column cfg) = Some d \<and> strptime d (date_format cfg) = None)"
  shows "\<exists>e. read_csv strptime cfg csv_rows = Inl e \<and> (e = IndexError \<or> e = ValueError)"
proof -
  have ne: "has_header cfg = PStr ''True'' \<longrightarrow> csv_rows \<noteq> []"
    using assms(1) by (auto simp: body_rows_def)
  have run: "read_csv strptime cfg csv_rows = read_rows strptime cfg (body_rows cfg csv_rows) []"
    by (rule read_csv_body [OF ne])
  have no: "\<not> (\<exists>t. row_transaction strptime cfg r = Inr t)"
    using assms(3) unfolding row_transaction_Inr by auto
  have "read_rows strptime cfg (body_rows cfg csv_rows) [] \<noteq> Inr ts" for ts
  proof
    assume "read_rows strptime cfg (body_rows cfg csv_rows) [] = Inr ts"
    then have "row_parses strptime cfg r"
      unfolding read_rows_Inr using assms(1) by blast
    then show False using assms(2) no by (auto simp: row_parses_def)
  qed
  then obtain e where e: "read_rows strptime cfg (body_rows cfg csv_rows) [] = Inl e"
    by (cases "read_rows strptime cfg (body_rows cfg csv_rows) []") auto
  from read_rows_error [OF e] e run show ?thesis by simp
qed

theorem C7_malformed_row_witness:
  "[''yesterday'', ''Tea'', '''', ''300''] \<in> set (body_rows
     \<lparr>has_header = PStr ''True'', has_ribo = PStr ''True'', date_column = 0,
      description_column = 1, amount_column = 3, date_format = ''%Y/%m/%d''\<rparr>
     [[''Date'', ''Shop'', ''Note'', ''Amount''],
      [''2024/09/05'', ''Coffee'', '''', ''500''],
      [''yesterday'', ''Tea'', '''', ''300'']])
   \<and> sample_strptime ''yesterday'' ''%Y/%m/%d'' = None
   \<and> (\<exists>e. read_csv sample_strptime
     \<lparr>has_header = PStr ''True'', has_ribo = PStr ''True'', date_column = 0,
      description_column = 1, amount_column = 3, date_format = ''%Y/%m/%d''\<rparr>
     [[''Date'', ''Shop'', ''Note'', ''Amount''],
      [''2024/09/05'', ''Coffee'', '''', ''500''],
      [''yesterday'', ''Tea'', '''', ''300'']] = Inl e \<and> (e = IndexError \<or> e = ValueError))"
proof -
  let ?cfg = "\<lparr>has_header = PStr ''True'', has_ribo = PStr ''True'', date_column = 0,
      description_column = 1, amount_column = 3, date_format = ''%Y/%m/%d''\<rparr>"
  let ?bad = "[''yesterday'', ''Tea'', '''', ''300'']"
  let ?rows = "[[''Date'', ''Shop'', ''Note'', ''Amount''],
      [''2024/09/05'', ''Coffee'', '''', ''500''], ?bad]"
  have h1: "?bad \<in> set (body_rows ?cfg ?rows)"
    by (simp add: body_rows_def)
  have e: "ribo_excluded ?cfg ?bad = Inr False" by code_simp
  then have h2: "ribo_excluded ?cfg ?bad \<noteq> Inr True" by simp
  have d: "py_index ?bad (date_column ?cfg) = Some ''yesterday''"
    by (simp add: py_index_def)
  have n: "sample_strptime ''yesterday'' ''%Y/%m/%d'' = None" by code_simp
  have h3: "py_index ?bad (date_column ?cfg) = None
         \<or> py_index ?bad (description_column ?cfg) = None
         \<or> py_index ?bad (amount_column ?cfg) = None
         \<or> (\<exists>d. py_index ?bad (date_column ?cfg) = Some d
               \<and> sample_strptime d (date_format ?cfg) = None)"
    using d n by simp
  show ?thesis
    using C7_malformed_row [where strptime = sample_strptime and r = ?bad, OF h1 h2 h3] h1 n by blast
qed

text \<open>
  Claim C10. The flags act only when they hold the string \<^verbatim>\<open>"True"\<close>. With any other
  value of \<^verbatim>\<open>has_header\<close> the loop runs over all rows, the first included; with the
  string it runs over the rows after the first. With any other value of \<^verbatim>\<open>has_ribo\<close> no
  row is excluded; with the string a row holding a marker is. So when neither flag
  holds the string and \<^verbatim>\<open>read_csv\<close> returns, it returns as many transactions as there
  are rows. The boolean true and the string \<^verbatim>\<open>"true"\<close> are such other values.
\<close>

theorem C10_flags_exact_string:
  "(has_header cfg \<noteq> PStr ''True'' \<longrightarrow>
      read_csv strptime cfg csv_rows = read_rows strptime cfg csv_rows [])
   \<and> (has_header cfg = PStr ''True'' \<longrightarrow>
      read_csv strptime cfg (header # rows) = read_rows strptime cfg rows [])
   \<and> (has_ribo cfg \<noteq> PStr ''True'' \<longrightarrow> ribo_excluded cfg row = Inr False)
   \<and> (has_ribo cfg = PStr ''True'' \<and> py_index row 1 = Some r1
        \<and> (py_in conversion_marker r1 \<or> py_in ribo_marker r1
            \<or> (py_index row 3 = Some r3 \<and> py_in ribo_marker r3)) \<longrightarrow>
      ribo_excluded cfg row = Inr True)
   \<and> (has_header cfg \<noteq> PStr ''True'' \<and> has_ribo cfg \<noteq> PStr ''True''
        \<and> read_csv strptime cfg csv_rows = Inr ts \<longrightarrow>
      length ts = length csv_rows)"
proof (intro conjI impI)
  assume a: "has_header cfg \<noteq> PStr ''True'' \<and> has_ribo cfg \<noteq> PStr ''True''
        \<and> read_csv strptime cfg csv_rows = Inr ts"
  then have r: "read_rows strptime cfg csv_rows [] = Inr ts"
    by (auto simp: read_csv_def simp del: read_rows.simps)
  have "filter (\<lambda>r. ribo_excluded cfg r = Inr False) csv_rows = csv_rows"
    using a by (simp add: ribo_excluded_def)
  with r show "length ts = length csv_rows"
    unfolding read_rows_Inr by simp
qed (auto simp: read_csv_def ribo_excluded_def simp del: read_rows.simps)

theorem C10_flags_exact_string_witness:
  "PBool True \<noteq> PStr ''True'' \<and> PStr ''true'' \<noteq> PStr ''True''
   \<and> ribo_excluded
       \<lparr>has_header = PBool True, has_ribo = PStr ''true'', date_column = 0,
        description_column = 1, amount_column = 3, date_format = ''%Y/%m/%d''\<rparr>
       [''2024/09/06'', ribo_marker, '''', ''100''] = Inr False
   \<and> read_csv sample_strptime
       \<lparr>has_header = PBool True, has_ribo = PStr ''true'', date_column = 0,
        description_column = 1, amount_column = 3, date_format = ''%Y/%m/%d''\<rparr>
       [[''2024/09/06'', ribo_marker, '''', ''100'']]
     = Inr [\<lparr>date = ''2024/09/06'', name = ribo_marker, amount = ''100''\<rparr>]
   \<and> length [\<lparr>date = ''2024/09/06'', name = ribo_marker, amount = ''100''\<rparr>]
     = length [[''2024/09/06'', ribo_marker, '''', ''100'']]"
proof -
  let ?cfg = "\<lparr>has_header = PBool True, has_ribo = PStr ''true'', date_column = 0,
        description_column = 1, amount_column = 3, date_format = ''%Y/%m/%d''\<rparr>"
  let ?row = "[''2024/09/06'', ribo_marker, '''', ''100'']"
  let ?t = "\<lparr>date = ''2024/09/06'', name = ribo_marker, amount = ''100''\<rparr>"
  have r: "read_csv sample_strptime ?cfg [?row] = Inr [?t]" by code_simp
  show ?thesis
    using C10_flags_exact_string [where cfg = ?cfg and strptime = sample_strptime
        and csv_rows = "[?row]" and row = ?row and ts = "[?t]"] r
    by simp
qed


end
